theory Spec2Isabelle
  imports Main "HOL-Library.Multiset"
begin

section \<open>Documents of the remote store\<close>

text \<open>
  The portal keeps four collections in a remote document store: \<open>notifications\<close>,
  \<open>lost_found_items\<close>, \<open>complaints\<close> and \<open>volunteers\<close>. Every document has an
  identifier given by the store, the identity of the user it belongs to (\<open>userId\<close>) and
  a server timestamp \<open>createdAt\<close> of whole seconds and nanoseconds since the epoch. A
  document whose write is still in flight has no timestamp yet (\<open>None\<close>).

  Identifiers are opaque to the code, which only compares them; they are natural numbers
  here. User identities and all text fields are byte strings (UTF-8).
\<close>

type_synonym uid = string

record timestamp =
  seconds :: int
  nanoseconds :: int

record doc =
  id_doc :: nat
  userId :: uid
  createdAt :: "timestamp option"

record notification = doc +
  message :: string
  type :: string
  read :: bool

record submission = doc +
  userName :: string
  status :: string

record report = submission +
  title :: string
  description :: string
  category :: string
  location :: string

record lf_item = report +
  type_lf :: string
  imageURL :: string

record complaint = report +
  urgency :: string

record volunteer = submission +
  name :: string
  email :: string
  phone :: string
  eventId :: string
  eventTitle :: string
  availability :: string
  skills :: string

text \<open>The fields of the volunteer form, as \<open>registerVolunteer\<close> reads them.\<close>

record formData =
  name_form :: string
  email_form :: string
  phone_form :: string
  eventId_form :: string
  eventTitle_form :: string
  availability_form :: string
  skills_form :: string

section \<open>The world: store, failures, console and toasts\<close>

text \<open>
  A request to the store either succeeds or fails (connectivity, permissions). The
  outcomes of the coming requests are part of the state: \<open>faults\<close> holds one flag per
  request, in order, \<open>True\<close> for a request that fails; when the list is used up every
  request succeeds. Quantifying over the state therefore quantifies over every pattern
  of store failures. \<open>now\<close> is the server's clock. \<open>console\<close> collects the first
  argument of every \<open>console.error\<close> (\<open>console.log\<close> is left out), \<open>toasts\<close> the
  messages of \<open>showToast\<close> with their kind.
\<close>

datatype error = StoreError | NotFound

record world =
  notifications :: "notification list"
  lost_found_items :: "lf_item list"
  complaints :: "complaint list"
  volunteers :: "volunteer list"
  faults :: "bool list"
  now :: timestamp
  console :: "string list"
  toasts :: "(string \<times> string) list"

definition request :: "world \<Rightarrow> bool \<times> world" where
  "request s = (case faults s of [] \<Rightarrow> (False, s) | f # fs \<Rightarrow> (f, s\<lparr>faults := fs\<rparr>))"

definition console_error :: "string \<Rightarrow> world \<Rightarrow> world" where
  "console_error label s = s\<lparr>console := console s @ [label]\<rparr>"

definition showToast :: "string \<Rightarrow> string \<Rightarrow> world \<Rightarrow> world" where
  "showToast msg kind s = s\<lparr>toasts := toasts s @ [(msg, kind)]\<rparr>"

subsection \<open>Collections and the store's operations\<close>

text \<open>
  A collection reference is the pair of its reader and its writer in the world.
\<close>

type_synonym 'a coll = "(world \<Rightarrow> 'a list) \<times> ('a list \<Rightarrow> world \<Rightarrow> world)"

definition collection_notifications :: "notification coll" where
  "collection_notifications = (notifications, \<lambda>v s. s\<lparr>notifications := v\<rparr>)"

definition collection_lost_found_items :: "lf_item coll" where
  "collection_lost_found_items = (lost_found_items, \<lambda>v s. s\<lparr>lost_found_items := v\<rparr>)"

definition collection_complaints :: "complaint coll" where
  "collection_complaints = (complaints, \<lambda>v s. s\<lparr>complaints := v\<rparr>)"

definition collection_volunteers :: "volunteer coll" where
  "collection_volunteers = (volunteers, \<lambda>v s. s\<lparr>volunteers := v\<rparr>)"

text \<open>
  The store gives a new document an identifier that no document of the collection has:
  one more than the largest identifier in use.
\<close>

definition new_id :: "('a doc_scheme) list \<Rightarrow> nat" where
  "new_id ds = Suc (fold max (map id_doc ds) 0)"

definition has_id :: "nat \<Rightarrow> ('a doc_scheme) list \<Rightarrow> bool" where
  "has_id i ds = (i \<in> set (map id_doc ds))"

definition update_id :: "nat \<Rightarrow> ('a doc_scheme \<Rightarrow> 'a doc_scheme) \<Rightarrow> ('a doc_scheme) list \<Rightarrow> ('a doc_scheme) list" where
  "update_id i f ds = map (\<lambda>d. if id_doc d = i then f d else d) ds"

text \<open>
  \<open>addDoc\<close> appends a document under a new identifier, stamped by the server.
  \<open>getDocs\<close> is a point-in-time read of the documents that satisfy the query.
  \<open>updateDoc\<close> changes fields of one existing document and fails on a missing one.
  A write batch is committed by one request and applied as a whole or not at all.
\<close>

definition addDoc :: "('a doc_scheme) coll \<Rightarrow> 'a doc_scheme \<Rightarrow> world \<Rightarrow> (error + nat) \<times> world" where
  "addDoc c d s =
     (case request s of
        (True, s') \<Rightarrow> (Inl StoreError, s')
      | (False, s') \<Rightarrow>
          (let i = new_id (fst c s')
           in (Inr i, snd c (fst c s' @ [d\<lparr>id_doc := i, createdAt := Some (now s')\<rparr>]) s')))"

definition getDocs :: "'a coll \<Rightarrow> ('a \<Rightarrow> bool) \<Rightarrow> world \<Rightarrow> (error + 'a list) \<times> world" where
  "getDocs c p s =
     (case request s of
        (True, s') \<Rightarrow> (Inl StoreError, s')
      | (False, s') \<Rightarrow> (Inr (filter p (fst c s')), s'))"

definition updateDoc :: "('a doc_scheme) coll \<Rightarrow> nat \<Rightarrow> ('a doc_scheme \<Rightarrow> 'a doc_scheme) \<Rightarrow> world \<Rightarrow> (error + unit) \<times> world" where
  "updateDoc c i f s =
     (case request s of
        (True, s') \<Rightarrow> (Inl StoreError, s')
      | (False, s') \<Rightarrow>
          (if has_id i (fst c s')
           then (Inr (), snd c (update_id i f (fst c s')) s')
           else (Inl NotFound, s')))"

definition commit :: "('a doc_scheme) coll \<Rightarrow> (nat \<times> ('a doc_scheme \<Rightarrow> 'a doc_scheme)) list \<Rightarrow> world \<Rightarrow> (error + unit) \<times> world" where
  "commit c batch s =
     (case request s of
        (True, s') \<Rightarrow> (Inl StoreError, s')
      | (False, s') \<Rightarrow>
          (if list_all (\<lambda>(i, f). has_id i (fst c s')) batch
           then (Inr (), snd c (fold (\<lambda>(i, f). update_id i f) batch (fst c s')) s')
           else (Inl NotFound, s')))"

subsection \<open>Strings and sorting of JavaScript\<close>


definition toLowerCase_char :: "char \<Rightarrow> char" where
  "toLowerCase_char c =
     (let n = (of_char c :: nat) in if 65 \<le> n \<and> n \<le> 90 then char_of (n + 32) else c)"

definition toLowerCase :: "string \<Rightarrow> string" where
  "toLowerCase s = map toLowerCase_char s"

text \<open>\<open>s.split(" ")\<close>: cut at every single space; two spaces in a row give an empty piece.\<close>

fun split_space :: "string \<Rightarrow> string list" where
  "split_space [] = [[]]"
| "split_space (c # cs) =
     (if c = CHR '' '' then [] # split_space cs
      else (case split_space cs of [] \<Rightarrow> [[c]] | w # ws \<Rightarrow> (c # w) # ws))"

fun startsWith :: "string \<Rightarrow> string \<Rightarrow> bool" where
  "startsWith s [] = True"
| "startsWith [] (k # ks) = False"
| "startsWith (c # cs) (k # ks) = (c = k \<and> startsWith cs ks)"

text \<open>\<open>s.includes(kw)\<close>: \<open>kw\<close> occurs in \<open>s\<close> as a substring.\<close>

fun includes_str :: "string \<Rightarrow> string \<Rightarrow> bool" where
  "includes_str [] kw = (kw = [])"
| "includes_str (c # cs) kw = (startsWith (c # cs) kw \<or> includes_str cs kw)"

text \<open>
  \<open>Array.prototype.sort\<close> with a comparison function is stable, and the comparison
  functions used here are differences of numbers, hence consistent; the result is then
  the one stable ordering of the array, which insertion from the right computes.
  \<open>cmp a b > 0\<close> puts \<open>b\<close> before \<open>a\<close>.
\<close>

fun insert_cmp :: "('a \<Rightarrow> 'a \<Rightarrow> int) \<Rightarrow> 'a \<Rightarrow> 'a list \<Rightarrow> 'a list" where
  "insert_cmp cmp x [] = [x]"
| "insert_cmp cmp x (y # ys) =
     (if cmp x y \<le> 0 then x # y # ys else y # insert_cmp cmp x ys)"

fun sort_js :: "('a \<Rightarrow> 'a \<Rightarrow> int) \<Rightarrow> 'a list \<Rightarrow> 'a list" where
  "sort_js cmp [] = []"
| "sort_js cmp (x # xs) = insert_cmp cmp x (sort_js cmp xs)"

text \<open>\<open>d.createdAt?.seconds || 0\<close> and the comparison function of every listener.\<close>

definition seconds_or_0 :: "'a doc_scheme \<Rightarrow> int" where
  "seconds_or_0 d =
     (case createdAt d of None \<Rightarrow> 0 | Some t \<Rightarrow> (if seconds t = 0 then 0 else seconds t))"

definition newest_first :: "'a doc_scheme \<Rightarrow> 'a doc_scheme \<Rightarrow> int" where
  "newest_first a b = (let aTime = seconds_or_0 a; bTime = seconds_or_0 b in bTime - aTime)"

section \<open>notifications.js\<close>

text \<open>
  The result of an asynchronous function is \<open>Inr\<close> of its value when its promise is
  fulfilled and \<open>Inl\<close> of the error when it is rejected.

  \<open>createNotification\<close>: the whole body is inside \<open>try\<close>; the handler logs and the
  function returns. Every caller passes the category, so the default of the third
  parameter does not appear.
\<close>

definition createNotification :: "uid \<Rightarrow> string \<Rightarrow> string \<Rightarrow> world \<Rightarrow> (error + unit) \<times> world" where
  "createNotification user msg ty s =
     (case addDoc collection_notifications
             \<lparr>id_doc = 0, userId = user, createdAt = None, message = msg, type = ty, read = False\<rparr> s of
        (Inr _, s') \<Rightarrow> (Inr (), s')
      | (Inl err, s') \<Rightarrow> (Inr (), console_error ''Create notification error:'' s'))"

text \<open>
  A listener is called by the store with every delta of its query, and with an error
  when the transport fails. An event is \<open>Some s\<close> for a delta at which the store is in
  state \<open>s\<close> (the snapshot then holds the documents of the query, here those with
  \<open>userId == user\<close>), and \<open>None\<close> for an error. The value is what \<open>onUpdate\<close> returns on
  the sequence handed to it.
\<close>

definition listenNotifications :: "uid \<Rightarrow> (notification list \<Rightarrow> 'r) \<Rightarrow> world option \<Rightarrow> 'r" where
  "listenNotifications user onUpdate ev =
     (case ev of
        Some s \<Rightarrow>
          (let snapshot_docs = filter (\<lambda>d. userId d = user) (notifications s);
               notifs = sort_js newest_first snapshot_docs
           in onUpdate notifs)
      | None \<Rightarrow> onUpdate [])"

text \<open>\<open>markAllRead\<close> and \<open>markOneRead\<close> have no \<open>try\<close>: a failing request rejects them.\<close>

definition markAllRead :: "uid \<Rightarrow> world \<Rightarrow> (error + unit) \<times> world" where
  "markAllRead user s =
     (case getDocs collection_notifications (\<lambda>d. userId d = user \<and> read d = False) s of
        (Inl err, s') \<Rightarrow> (Inl err, s')
      | (Inr snap, s') \<Rightarrow>
          commit collection_notifications (map (\<lambda>d. (id_doc d, \<lambda>n. n\<lparr>read := True\<rparr>)) snap) s')"

definition markOneRead :: "nat \<Rightarrow> world \<Rightarrow> (error + unit) \<times> world" where
  "markOneRead notifId s = updateDoc collection_notifications notifId (\<lambda>n. n\<lparr>read := True\<rparr>) s"

section \<open>lostfound.js\<close>

definition dquote :: string where
  "dquote = [CHR 0x22]"

text \<open>The magnifying glass of the match messages, in UTF-8.\<close>

definition magnifier :: string where
  "magnifier = [CHR 0xF0, CHR 0x9F, CHR 0x94, CHR 0x8D]"

definition keywords_of :: "string \<Rightarrow> string list" where
  "keywords_of newTitle = filter (\<lambda>w. length w > 3) (split_space (toLowerCase newTitle))"

text \<open>
  The body of the \<open>forEach\<close> over the documents read. The calls of
  \<open>createNotification\<close> are not awaited; their writes reach the store in the order in
  which they are issued, and the state returned is the one in which they have settled.
\<close>

definition match_item :: "nat \<Rightarrow> string \<Rightarrow> uid \<Rightarrow> string list \<Rightarrow> lf_item \<Rightarrow> world \<Rightarrow> world" where
  "match_item newItemId newTitle user keywords item s =
     (if id_doc item = newItemId then s
      else
        (let itemTitle = toLowerCase (title item);
             matched = list_ex (\<lambda>kw. includes_str itemTitle kw) keywords
         in if matched
            then
              (let s1 = snd (createNotification user
                         (magnifier @ '' Possible match found! '' @ dquote @ title item @ dquote
                            @ '' may match your report.'') ''match'' s)
               in if userId item \<noteq> user
                  then snd (createNotification (userId item)
                         (magnifier @ '' Possible match for your item! Check '' @ dquote @ newTitle
                            @ dquote @ ''.'') ''match'' s1)
                  else s1)
            else s))"

definition checkKeywordMatch :: "nat \<Rightarrow> string \<Rightarrow> uid \<Rightarrow> world \<Rightarrow> (error + unit) \<times> world" where
  "checkKeywordMatch newItemId newTitle user s =
     (let keywords = keywords_of newTitle
      in if length keywords = 0 then (Inr (), s)
         else
           (case getDocs collection_lost_found_items (\<lambda>d. True) s of
              (Inl err, s') \<Rightarrow> (Inr (), console_error ''Keyword match error:'' s')
            | (Inr allItems, s') \<Rightarrow>
                (Inr (), fold (match_item newItemId newTitle user keywords) allItems s')))"

definition listenUserLostFound :: "uid \<Rightarrow> (lf_item list \<Rightarrow> 'r) \<Rightarrow> world option \<Rightarrow> 'r" where
  "listenUserLostFound user renderFn ev =
     (case ev of
        Some s \<Rightarrow>
          (let snapshot_docs = filter (\<lambda>d. userId d = user) (lost_found_items s);
               items = sort_js newest_first snapshot_docs
           in renderFn items)
      | None \<Rightarrow> renderFn [])"

definition updateLostFoundStatus :: "nat \<Rightarrow> string \<Rightarrow> uid \<Rightarrow> world \<Rightarrow> (error + unit) \<times> world" where
  "updateLostFoundStatus itemId newStatus itemOwnerId s =
     (case updateDoc collection_lost_found_items itemId (\<lambda>d. d\<lparr>status := newStatus\<rparr>) s of
        (Inl err, s') \<Rightarrow>
          (Inr (), showToast ''Failed to update status.'' ''error''
                     (console_error ''Update status error:'' s'))
      | (Inr _, s') \<Rightarrow>
          (case createNotification itemOwnerId
                  (''Your lost/found item status was updated to '' @ dquote @ newStatus @ dquote @ ''.'')
                  ''status'' s' of
             (Inl err, s'') \<Rightarrow>
               (Inr (), showToast ''Failed to update status.'' ''error''
                          (console_error ''Update status error:'' s''))
           | (Inr _, s'') \<Rightarrow>
               (Inr (), showToast (''Status updated to '' @ newStatus) ''success'' s'')))"

section \<open>complaints.js\<close>

text \<open>The cross mark of the error logs, in UTF-8.\<close>

definition cross_mark :: string where
  "cross_mark = [CHR 0xE2, CHR 0x9D, CHR 0x8C]"

definition updateComplaintStatus_catch :: "world \<Rightarrow> world" where
  "updateComplaintStatus_catch s =
     showToast ''Failed to update status.'' ''error''
       (console_error ''Error:'' (console_error (cross_mark @ '' UPDATE COMPLAINT ERROR ==='') s))"

definition updateComplaintStatus :: "nat \<Rightarrow> string \<Rightarrow> uid \<Rightarrow> world \<Rightarrow> (error + unit) \<times> world" where
  "updateComplaintStatus complaintId newStatus ownerId s =
     (case updateDoc collection_complaints complaintId (\<lambda>d. d\<lparr>status := newStatus\<rparr>) s of
        (Inl err, s') \<Rightarrow> (Inr (), updateComplaintStatus_catch s')
      | (Inr _, s') \<Rightarrow>
          (case createNotification ownerId
                  (''Your complaint status was updated to '' @ dquote @ newStatus @ dquote @ ''.'')
                  ''complaint'' s' of
             (Inl err, s'') \<Rightarrow> (Inr (), updateComplaintStatus_catch s'')
           | (Inr _, s'') \<Rightarrow>
               (Inr (), showToast (''Status updated to '' @ dquote @ newStatus @ dquote) ''success'' s'')))"

section \<open>volunteer.js\<close>

text \<open>
  The dynamic \<open>import\<close> at the head of \<open>registerVolunteer\<close> names the module that the
  file already imports statically, so it yields the loaded module and is no request.
\<close>

definition party_popper :: string where
  "party_popper = [CHR 0xF0, CHR 0x9F, CHR 0x8E, CHR 0x89]"

definition registerVolunteer_catch :: "world \<Rightarrow> world" where
  "registerVolunteer_catch s =
     showToast ''Registration failed. Please try again.'' ''error''
       (console_error ''Volunteer registration error:'' s)"

definition registerVolunteer :: "uid \<Rightarrow> string \<Rightarrow> formData \<Rightarrow> world \<Rightarrow> (error + bool) \<times> world" where
  "registerVolunteer user uname form s =
     (case getDocs collection_volunteers
             (\<lambda>d. userId d = user \<and> eventId d = eventId_form form) s of
        (Inl err, s') \<Rightarrow> (Inr False, registerVolunteer_catch s')
      | (Inr snap, s') \<Rightarrow>
          (if snap \<noteq> []
           then (Inr False, showToast ''You already registered for this event!'' ''info'' s')
           else
             (case addDoc collection_volunteers
                     \<lparr>id_doc = 0, userId = user, createdAt = None,
                      userName = uname, status = ''Registered'',
                      name = name_form form, email = email_form form, phone = phone_form form,
                      eventId = eventId_form form, eventTitle = eventTitle_form form,
                      availability = availability_form form, skills = skills_form form\<rparr> s' of
                (Inl err, s'') \<Rightarrow> (Inr False, registerVolunteer_catch s'')
              | (Inr _, s'') \<Rightarrow>
                  (Inr True,
                   showToast (''Volunteer registration successful! '' @ party_popper) ''success'' s''))))"

section \<open>The operations as steps\<close>

datatype op =
    CreateNotification uid string string
  | MarkAllRead uid
  | MarkOneRead nat
  | CheckKeywordMatch nat string uid
  | UpdateLostFoundStatus nat string uid
  | UpdateComplaintStatus nat string uid
  | RegisterVolunteer uid string formData

fun run_op :: "op \<Rightarrow> world \<Rightarrow> world" where
  "run_op (CreateNotification u m t) s = snd (createNotification u m t s)"
| "run_op (MarkAllRead u) s = snd (markAllRead u s)"
| "run_op (MarkOneRead i) s = snd (markOneRead i s)"
| "run_op (CheckKeywordMatch i t u) s = snd (checkKeywordMatch i t u s)"
| "run_op (UpdateLostFoundStatus i st u) s = snd (updateLostFoundStatus i st u s)"
| "run_op (UpdateComplaintStatus i st u) s = snd (updateComplaintStatus i st u s)"
| "run_op (RegisterVolunteer u n f) s = snd (registerVolunteer u n f s)"

section \<open>Vocabulary of the properties\<close>

text \<open>\<open>healthy n s\<close>: the next \<open>n\<close> requests to the store succeed.\<close>

definition healthy :: "nat \<Rightarrow> world \<Rightarrow> bool" where
  "healthy n s = (True \<notin> set (take n (faults s)))"

text \<open>
  The time of a document, a missing timestamp counting as time zero; the order
  "\<open>a\<close> is not older than \<open>b\<close>" on seconds and nanoseconds; and "the server timestamp,
  if there is one, lies after the epoch".

  \<open>projection_of user docs out\<close>: \<open>out\<close> holds exactly the documents of \<open>docs\<close> that
  belong to \<open>user\<close>, each as often as \<open>docs\<close> does, hence once per identifier when the
  identifiers of \<open>docs\<close> are distinct; it is ordered by whole seconds, newest first; and
  when every timestamp lies after the epoch, no document without timestamp comes
  before one that has a timestamp.
\<close>

definition time_of :: "'a doc_scheme \<Rightarrow> int \<times> int" where
  "time_of d = (case createdAt d of None \<Rightarrow> (0, 0) | Some t \<Rightarrow> (seconds t, nanoseconds t))"

definition not_older :: "'a doc_scheme \<Rightarrow> 'a doc_scheme \<Rightarrow> bool" where
  "not_older a b =
     (fst (time_of b) < fst (time_of a)
      \<or> (fst (time_of b) = fst (time_of a) \<and> snd (time_of b) \<le> snd (time_of a)))"

definition after_epoch :: "'a doc_scheme \<Rightarrow> bool" where
  "after_epoch d = (case createdAt d of None \<Rightarrow> True | Some t \<Rightarrow> 0 < seconds t)"

definition projection_of :: "uid \<Rightarrow> ('a doc_scheme) list \<Rightarrow> ('a doc_scheme) list \<Rightarrow> bool" where
  "projection_of user docs out =
     (mset out = filter_mset (\<lambda>d. userId d = user) (mset docs)
      \<and> (distinct (map id_doc docs) \<longrightarrow> distinct (map id_doc out))
      \<and> sorted_wrt (\<lambda>a b. seconds_or_0 b \<le> seconds_or_0 a) out
      \<and> (list_all after_epoch docs \<longrightarrow>
           sorted_wrt (\<lambda>a b. createdAt a = None \<longrightarrow> createdAt b = None) out))"

text \<open>\<open>registered user event s\<close>: the store holds a registration of \<open>user\<close> for \<open>event\<close>.\<close>

definition registered :: "uid \<Rightarrow> string \<Rightarrow> world \<Rightarrow> bool" where
  "registered user event s = list_ex (\<lambda>d. userId d = user \<and> eventId d = event) (volunteers s)"

text \<open>
  \<open>read_kept ns ns'\<close>: every notification of \<open>ns\<close> is still at its place in \<open>ns'\<close>, under
  the same identifier, and is read in \<open>ns'\<close> if it was read in \<open>ns\<close>.
  \<open>created_unread ns ns'\<close>: the notifications that \<open>ns'\<close> has beyond \<open>ns\<close> are unread.
\<close>

definition read_kept :: "notification list \<Rightarrow> notification list \<Rightarrow> bool" where
  "read_kept ns ns' =
     (length ns \<le> length ns'
      \<and> list_all2 (\<lambda>n n'. id_doc n' = id_doc n \<and> (read n \<longrightarrow> read n')) ns (take (length ns) ns'))"

definition created_unread :: "notification list \<Rightarrow> notification list \<Rightarrow> bool" where
  "created_unread ns ns' = list_all (\<lambda>n. \<not> read n) (drop (length ns) ns')"

text \<open>
  The shape of one step, used in the proofs: the old notifications, each possibly
  marked read, followed by new unread ones.
\<close>

definition step_shape :: "notification list \<Rightarrow> notification list \<Rightarrow> bool" where
  "step_shape ns ns' =
     (\<exists>g new. ns' = map g ns @ new
        \<and> (\<forall>n. id_doc (g n) = id_doc n \<and> (read n \<longrightarrow> read (g n)))
        \<and> (\<forall>n \<in> set new. \<not> read n))"

section \<open>Concrete worlds\<close>

definition same_second_world :: world where
  "same_second_world =
     \<lparr>notifications =
        [\<lparr>id_doc = 1, userId = ''u1'', createdAt = Some \<lparr>seconds = 100, nanoseconds = 0\<rparr>,
          message = ''first'', type = ''info'', read = False\<rparr>,
         \<lparr>id_doc = 2, userId = ''u1'', createdAt = Some \<lparr>seconds = 100, nanoseconds = 500000000\<rparr>,
          message = ''second'', type = ''info'', read = False\<rparr>],
      lost_found_items =
        [\<lparr>id_doc = 5, userId = ''u1'', createdAt = Some \<lparr>seconds = 100, nanoseconds = 0\<rparr>,
          userName = ''Una'', status = ''Pending'', title = ''Lost Keys'', description = '''',
          category = ''keys'', location = ''gate'', type_lf = ''lost'', imageURL = ''''\<rparr>,
         \<lparr>id_doc = 6, userId = ''u1'', createdAt = Some \<lparr>seconds = 100, nanoseconds = 500000000\<rparr>,
          userName = ''Una'', status = ''Pending'', title = ''Lost Umbrella'', description = '''',
          category = ''other'', location = ''hall'', type_lf = ''lost'', imageURL = ''''\<rparr>],
      complaints = [], volunteers = [], faults = [],
      now = \<lparr>seconds = 101, nanoseconds = 0\<rparr>, console = [], toasts = []\<rparr>"

text \<open>A world with a notification whose server timestamp is still pending.\<close>

definition pending_world :: world where
  "pending_world =
     \<lparr>notifications =
        [\<lparr>id_doc = 1, userId = ''u1'', createdAt = Some \<lparr>seconds = 100, nanoseconds = 0\<rparr>,
          message = ''first'', type = ''info'', read = False\<rparr>,
         \<lparr>id_doc = 2, userId = ''u1'', createdAt = None,
          message = ''second'', type = ''info'', read = False\<rparr>,
         \<lparr>id_doc = 3, userId = ''u1'', createdAt = Some \<lparr>seconds = 200, nanoseconds = 0\<rparr>,
          message = ''third'', type = ''match'', read = True\<rparr>,
         \<lparr>id_doc = 4, userId = ''u2'', createdAt = Some \<lparr>seconds = 300, nanoseconds = 0\<rparr>,
          message = ''fourth'', type = ''info'', read = False\<rparr>],
      lost_found_items = [], complaints = [], volunteers = [], faults = [],
      now = \<lparr>seconds = 301, nanoseconds = 0\<rparr>, console = [], toasts = []\<rparr>"


definition found_wallet :: lf_item where
  "found_wallet =
     \<lparr>id_doc = 1, userId = ''bob'', createdAt = Some \<lparr>seconds = 100, nanoseconds = 0\<rparr>,
      userName = ''Bob'', status = ''Pending'', title = ''Found Brown Wallet Downtown'',
      description = '''', category = ''wallet'', location = ''downtown'', type_lf = ''found'',
      imageURL = ''''\<rparr>"

definition wallet_world :: world where
  "wallet_world =
     \<lparr>notifications = [],
      lost_found_items =
        [found_wallet,
         \<lparr>id_doc = 2, userId = ''alice'', createdAt = Some \<lparr>seconds = 150, nanoseconds = 0\<rparr>,
          userName = ''Alice'', status = ''Pending'', title = ''Lost Brown Wallet'',
          description = '''', category = ''wallet'', location = ''campus'', type_lf = ''lost'',
          imageURL = ''''\<rparr>],
      complaints = [], volunteers = [], faults = [],
      now = \<lparr>seconds = 200, nanoseconds = 0\<rparr>, console = [], toasts = []\<rparr>"

definition inbox_world :: world where
  "inbox_world =
     \<lparr>notifications =
        [\<lparr>id_doc = 1, userId = ''u1'', createdAt = Some \<lparr>seconds = 100, nanoseconds = 0\<rparr>,
          message = ''first'', type = ''info'', read = False\<rparr>,
         \<lparr>id_doc = 2, userId = ''u1'', createdAt = Some \<lparr>seconds = 110, nanoseconds = 0\<rparr>,
          message = ''second'', type = ''match'', read = True\<rparr>,
         \<lparr>id_doc = 3, userId = ''u2'', createdAt = Some \<lparr>seconds = 120, nanoseconds = 0\<rparr>,
          message = ''third'', type = ''info'', read = False\<rparr>],
      lost_found_items = [], complaints = [], volunteers = [], faults = [],
      now = \<lparr>seconds = 200, nanoseconds = 0\<rparr>, console = [], toasts = []\<rparr>"

definition pothole :: complaint where
  "pothole =
     \<lparr>id_doc = 7, userId = ''carol'', createdAt = Some \<lparr>seconds = 100, nanoseconds = 0\<rparr>,
      userName = ''Carol'', status = ''Submitted'', title = ''Pothole'', description = '''',
      category = ''roads'', location = ''main street'', urgency = ''high''\<rparr>"

definition complaint_world :: world where
  "complaint_world =
     \<lparr>notifications = [], lost_found_items = [], complaints = [pothole], volunteers = [],
      faults = [], now = \<lparr>seconds = 200, nanoseconds = 0\<rparr>, console = [], toasts = []\<rparr>"

text \<open>A world whose next request fails.\<close>

definition offline_world :: world where
  "offline_world =
     \<lparr>notifications = [], lost_found_items = [found_wallet], complaints = [pothole],
      volunteers = [], faults = [True],
      now = \<lparr>seconds = 200, nanoseconds = 0\<rparr>, console = [], toasts = []\<rparr>"

definition empty_world :: world where
  "empty_world =
     \<lparr>notifications = [], lost_found_items = [], complaints = [], volunteers = [],
      faults = [], now = \<lparr>seconds = 200, nanoseconds = 0\<rparr>, console = [], toasts = []\<rparr>"

definition cleanup_form :: formData where
  "cleanup_form =
     \<lparr>name_form = ''Una'', email_form = ''una@example.org'', phone_form = ''0300'',
      eventId_form = ''community-cleanup'', eventTitle_form = ''Community Cleanup'',
      availability_form = ''weekends'', skills_form = ''''\<rparr>"

section \<open>Lemmas on the store and on strings\<close>

lemma request_healthy:
  "healthy (Suc n) s \<Longrightarrow> request s = (False, s\<lparr>faults := tl (faults s)\<rparr>)"
  by (cases "faults s") (auto simp: healthy_def request_def)

lemma healthy_tl: "healthy (Suc n) s \<Longrightarrow> healthy n (s\<lparr>faults := tl (faults s)\<rparr>)"
  by (cases "faults s") (auto simp: healthy_def)

lemma createNotification_healthy:
  "healthy (Suc n) s \<Longrightarrow>
   createNotification user msg ty s =
     (Inr (), s\<lparr>faults := tl (faults s),
                notifications := notifications s @
                  [\<lparr>id_doc = new_id (notifications s), userId = user, createdAt = Some (now s),
                    message = msg, type = ty, read = False\<rparr>]\<rparr>)"
  by (simp add: createNotification_def addDoc_def request_healthy collection_notifications_def Let_def)

lemma startsWith_append: "startsWith (t @ b) t"
  by (induction t) auto

lemma includes_str_prefix: "includes_str (t @ b) t"
  using startsWith_append [of t b] by (cases "t @ b") auto

lemma includes_str_append: "includes_str (a @ t @ b) t"
  by (induction a) (auto simp: includes_str_prefix)

lemma fold_match_item_others:
  "fold (match_item newItemId newTitle user kws) items s =
   fold (match_item newItemId newTitle user kws) (filter (\<lambda>d. id_doc d \<noteq> newItemId) items) s"
  by (induction items arbitrary: s) (auto simp: match_item_def)

lemma keywords_lost_brown_wallet:
  "keywords_of ''Lost Brown Wallet'' = [''lost'', ''brown'', ''wallet'']"
  by code_simp

lemma found_title_matches:
  "list_ex (includes_str (toLowerCase ''Found Brown Wallet Downtown'')) [''lost'', ''brown'', ''wallet'']"
  by code_simp

lemma createNotification_healthy_faults:
  "healthy (Suc n) s \<Longrightarrow> healthy n (snd (createNotification user msg ty s))"
  using healthy_tl [of n s] by (simp add: createNotification_healthy healthy_def)

lemma createNotification_healthy_notifications:
  "healthy (Suc n) s \<Longrightarrow>
   notifications (snd (createNotification user msg ty s)) =
     notifications s @
       [\<lparr>id_doc = new_id (notifications s), userId = user, createdAt = Some (now s),
         message = msg, type = ty, read = False\<rparr>]"
  by (simp add: createNotification_healthy)

lemma createNotification_notifications:
  "notifications (snd (createNotification user msg ty s)) =
     (if fst (request s) then notifications s
      else notifications s @
        [\<lparr>id_doc = new_id (notifications s), userId = user, createdAt = Some (now s),
          message = msg, type = ty, read = False\<rparr>])"
  by (auto simp: createNotification_def addDoc_def request_def collection_notifications_def
      console_error_def Let_def split: list.splits bool.splits)

lemma createNotification_others:
  "lost_found_items (snd (createNotification user msg ty s)) = lost_found_items s"
  "complaints (snd (createNotification user msg ty s)) = complaints s"
  "volunteers (snd (createNotification user msg ty s)) = volunteers s"
  by (auto simp: createNotification_def addDoc_def request_def collection_notifications_def
      console_error_def Let_def split: list.splits bool.splits)

lemma request_collections:
  "notifications (snd (request s)) = notifications s"
  "lost_found_items (snd (request s)) = lost_found_items s"
  "complaints (snd (request s)) = complaints s"
  "volunteers (snd (request s)) = volunteers s"
  by (auto simp: request_def split: list.splits)

lemma getDocs_request:
  "getDocs c p s =
     (if fst (request s) then (Inl StoreError, snd (request s))
      else (Inr (filter p (fst c (snd (request s)))), snd (request s)))"
  by (auto simp: getDocs_def split: prod.splits)







section \<open>Lemmas on sorting\<close>

lemma mset_insert_cmp: "mset (insert_cmp cmp x xs) = add_mset x (mset xs)"
  by (induction xs) auto

lemma mset_sort_js: "mset (sort_js cmp xs) = mset xs"
  by (induction xs) (auto simp: mset_insert_cmp)

lemma set_sort_js: "set (sort_js cmp xs) = set xs"
  using mset_sort_js [of cmp xs] by (metis set_mset_mset)

lemma set_insert_cmp: "set (insert_cmp cmp x xs) = insert x (set xs)"
  by (induction xs) auto

lemma newest_first_le_0: "newest_first a b \<le> 0 \<longleftrightarrow> seconds_or_0 b \<le> seconds_or_0 a"
  by (simp add: newest_first_def)

lemma sorted_insert_newest_first:
  "sorted_wrt (\<lambda>a b. seconds_or_0 b \<le> seconds_or_0 a) xs \<Longrightarrow>
   sorted_wrt (\<lambda>a b. seconds_or_0 b \<le> seconds_or_0 a) (insert_cmp newest_first x xs)"
  by (induction xs) (auto simp: newest_first_le_0 set_insert_cmp)

lemma sorted_sort_js_newest_first:
  "sorted_wrt (\<lambda>a b. seconds_or_0 b \<le> seconds_or_0 a) (sort_js newest_first xs)"
  by (induction xs) (auto intro: sorted_insert_newest_first)

lemma distinct_ids_sort_js:
  "distinct (map id_doc xs) \<Longrightarrow> distinct (map id_doc (sort_js cmp xs))"
proof -
  assume d: "distinct (map id_doc xs)"
  have "mset (map id_doc (sort_js cmp xs)) = mset (map id_doc xs)"
    by (simp add: mset_sort_js)
  then show ?thesis using d by (metis mset_eq_imp_distinct_iff)
qed

lemma missing_last:
  assumes "list_all after_epoch xs"
    and "sorted_wrt (\<lambda>a b. seconds_or_0 b \<le> seconds_or_0 a) xs"
  shows "sorted_wrt (\<lambda>a b. createdAt a = None \<longrightarrow> createdAt b = None) xs"
proof (rule sorted_wrt_mono_rel [OF _ assms(2)])
  fix a b assume "a \<in> set xs" "b \<in> set xs" "seconds_or_0 b \<le> seconds_or_0 a"
  with assms(1) show "createdAt a = None \<longrightarrow> createdAt b = None"
    by (auto simp: list_all_iff after_epoch_def seconds_or_0_def split: option.splits if_splits)
qed

lemma projection_of_sorted_filter:
  "projection_of user docs (sort_js newest_first (filter (\<lambda>d. userId d = user) docs))"
  unfolding projection_of_def
proof (intro conjI impI)
  show "mset (sort_js newest_first (filter (\<lambda>d. userId d = user) docs))
        = filter_mset (\<lambda>d. userId d = user) (mset docs)"
    by (simp add: mset_sort_js)
  show "distinct (map id_doc (sort_js newest_first (filter (\<lambda>d. userId d = user) docs)))"
    if "distinct (map id_doc docs)"
    using that by (intro distinct_ids_sort_js) (simp add: distinct_map_filter)
  show "sorted_wrt (\<lambda>a b. seconds_or_0 b \<le> seconds_or_0 a)
          (sort_js newest_first (filter (\<lambda>d. userId d = user) docs))"
    by (rule sorted_sort_js_newest_first)
  show "sorted_wrt (\<lambda>a b. createdAt a = None \<longrightarrow> createdAt b = None)
          (sort_js newest_first (filter (\<lambda>d. userId d = user) docs))"
    if "list_all after_epoch docs"
  proof (rule missing_last)
    show "list_all after_epoch (sort_js newest_first (filter (\<lambda>d. userId d = user) docs))"
      using that by (simp add: list_all_iff set_sort_js)
  qed (rule sorted_sort_js_newest_first)
qed

text \<open>The sort is stable: records of the same second keep the order of the snapshot.\<close>

lemma filter_insert_cmp_newest_first:
  "filter (\<lambda>d. seconds_or_0 d = k) (insert_cmp newest_first x xs)
   = filter (\<lambda>d. seconds_or_0 d = k) (x # xs)"
  by (induction xs) (auto simp: newest_first_le_0)

lemma sort_js_newest_first_stable:
  "filter (\<lambda>d. seconds_or_0 d = k) (sort_js newest_first xs)
   = filter (\<lambda>d. seconds_or_0 d = k) xs"
  by (induction xs) (auto simp: filter_insert_cmp_newest_first)

text \<open>
  What the listeners do guarantee at every delta: exactly the documents of the subscribed
  user, once per identifier, ordered by the whole seconds of \<open>createdAt\<close>, newest first,
  with the documents of one second in the order of the snapshot, and with the documents
  that have no server timestamp last when the timestamps lie after the epoch.
\<close>

lemma listeners_projection:
  "\<forall>s \<in> set deltas.
      projection_of user (notifications s) (listenNotifications user id (Some s))
    \<and> projection_of user (lost_found_items s) (listenUserLostFound user id (Some s))"
proof
  fix s
  assume "s \<in> set deltas"
  have n: "listenNotifications user id (Some s)
      = sort_js newest_first (filter (\<lambda>d. userId d = user) (notifications s))"
    by (simp add: listenNotifications_def)
  have l: "listenUserLostFound user id (Some s)
      = sort_js newest_first (filter (\<lambda>d. userId d = user) (lost_found_items s))"
    by (simp add: listenUserLostFound_def)
  show "projection_of user (notifications s) (listenNotifications user id (Some s))
    \<and> projection_of user (lost_found_items s) (listenUserLostFound user id (Some s))"
    unfolding n l by (intro conjI projection_of_sorted_filter)
qed

lemma listeners_projection_example:
  "projection_of ''u1'' (notifications pending_world)
     (listenNotifications ''u1'' id (Some pending_world))
   \<and> distinct (map id_doc (notifications pending_world))
   \<and> list_all after_epoch (notifications pending_world)
   \<and> map id_doc (listenNotifications ''u1'' id (Some pending_world)) = [3, 1, 2]"
proof -
  have a: "distinct (map id_doc (notifications pending_world))"
    by (simp add: pending_world_def)
  have b: "list_all after_epoch (notifications pending_world)"
    by (simp add: pending_world_def after_epoch_def)
  have c: "map id_doc (listenNotifications ''u1'' id (Some pending_world)) = [3, 1, 2]"
    by (simp add: listenNotifications_def pending_world_def newest_first_def seconds_or_0_def)
  show ?thesis
    using a b c listeners_projection [of "[pending_world]" "''u1''"] by simp
qed

lemma listeners_stable:
  "filter (\<lambda>d. seconds_or_0 d = k) (listenNotifications user id (Some s))
     = filter (\<lambda>d. seconds_or_0 d = k) (filter (\<lambda>d. userId d = user) (notifications s))
   \<and> filter (\<lambda>d. seconds_or_0 d = k) (listenUserLostFound user id (Some s))
     = filter (\<lambda>d. seconds_or_0 d = k) (filter (\<lambda>d. userId d = user) (lost_found_items s))"
  by (simp add: listenNotifications_def listenUserLostFound_def sort_js_newest_first_stable)

section \<open>Lemmas on the operations\<close>

lemma fold_update_read:
  "fold (\<lambda>(i, f). update_id i f) (map (\<lambda>d. (id_doc d, \<lambda>n. n\<lparr>read := True\<rparr>)) snap) ds
   = map (\<lambda>d. if id_doc d \<in> id_doc ` set snap then d\<lparr>read := True\<rparr> else d) ds"
proof (induction snap arbitrary: ds)
  case Nil
  then show ?case by simp
next
  case (Cons a snap)
  have "fold (\<lambda>(i, f). update_id i f) (map (\<lambda>d. (id_doc d, \<lambda>n. n\<lparr>read := True\<rparr>)) (a # snap)) ds
      = map (\<lambda>d. if id_doc d \<in> id_doc ` set snap then d\<lparr>read := True\<rparr> else d)
          (update_id (id_doc a) (\<lambda>n. n\<lparr>read := True\<rparr>) ds)"
    by (simp add: Cons.IH)
  also have "\<dots> = map (\<lambda>d. if id_doc d \<in> id_doc ` set (a # snap) then d\<lparr>read := True\<rparr> else d) ds"
    by (simp add: update_id_def)
  finally show ?case .
qed

lemma markAllRead_notifications:
  "notifications (snd (markAllRead user s)) =
     (if fst (markAllRead user s) = Inr ()
      then map (\<lambda>d. if id_doc d \<in> id_doc ` {d \<in> set (notifications s). userId d = user \<and> \<not> read d}
                     then d\<lparr>read := True\<rparr> else d) (notifications s)
      else notifications s)"
  by (auto simp: markAllRead_def getDocs_def commit_def request_def collection_notifications_def
      fold_update_read split: list.splits bool.splits if_splits)

lemma markAllRead_nothing_unread:
  "filter (\<lambda>d. userId d = user \<and> \<not> read d) (notifications s) = []
   \<Longrightarrow> notifications (snd (markAllRead user s)) = notifications s"
  by (auto simp: markAllRead_def getDocs_def commit_def request_def collection_notifications_def
      split: list.splits bool.splits if_splits)

lemma healthy_2_cases:
  "healthy 2 s \<longleftrightarrow> (case faults s of [] \<Rightarrow> True | a # fs \<Rightarrow> \<not> a \<and> (case fs of [] \<Rightarrow> True | b # _ \<Rightarrow> \<not> b))"
  by (auto simp: healthy_def eval_nat_numeral split: list.splits)

lemma registerVolunteer_result:
  "fst (registerVolunteer user uname form s)
     = Inr (\<not> registered user (eventId_form form) s \<and> healthy 2 s)"
  by (auto simp: registerVolunteer_def getDocs_def addDoc_def request_def registered_def
      collection_volunteers_def healthy_2_cases Let_def list_ex_iff filter_empty_conv
      split: list.splits bool.splits)

lemma registerVolunteer_volunteers:
  "volunteers (snd (registerVolunteer user uname form s)) =
     (if fst (registerVolunteer user uname form s) = Inr True
      then volunteers s @
        [\<lparr>id_doc = new_id (volunteers s), userId = user, createdAt = Some (now s),
          userName = uname, status = ''Registered'',
          name = name_form form, email = email_form form, phone = phone_form form,
          eventId = eventId_form form, eventTitle = eventTitle_form form,
          availability = availability_form form, skills = skills_form form\<rparr>]
      else volunteers s)"
  by (auto simp: registerVolunteer_def getDocs_def addDoc_def request_def
      collection_volunteers_def Let_def registerVolunteer_catch_def showToast_def console_error_def
      split: list.splits bool.splits)

lemma step_shapeI:
  "ns' = map g ns @ new \<Longrightarrow> (\<And>n. id_doc (g n) = id_doc n \<and> (read n \<longrightarrow> read (g n)))
   \<Longrightarrow> (\<And>n. n \<in> set new \<Longrightarrow> \<not> read n) \<Longrightarrow> step_shape ns ns'"
  unfolding step_shape_def by blast

lemma step_shape_refl: "step_shape ns ns"
  by (rule step_shapeI [of _ "\<lambda>n. n" _ "[]"]) auto

lemma step_shape_append: "\<forall>n \<in> set new. \<not> read n \<Longrightarrow> step_shape ns (ns @ new)"
  by (rule step_shapeI [of _ "\<lambda>n. n" _ new]) auto

lemma step_shape_map:
  "(\<And>n. id_doc (g n) = id_doc n \<and> (read n \<longrightarrow> read (g n))) \<Longrightarrow> step_shape ns (map g ns)"
  by (rule step_shapeI [of _ g _ "[]"]) auto

lemma step_shape_read_kept: "step_shape ns ns' \<Longrightarrow> read_kept ns ns' \<and> created_unread ns ns'"
  by (auto simp: step_shape_def read_kept_def created_unread_def list_all2_map2 list_all_iff
      intro!: list_all2_all_nthI)

lemma read_kept_refl: "read_kept ns ns"
  by (simp add: read_kept_def list_all2_same)

lemma read_kept_trans:
  assumes "read_kept ns ns'" and "read_kept ns' ns''"
  shows "read_kept ns ns''"
proof -
  let ?P = "\<lambda>n n'. id_doc n' = id_doc n \<and> (read n \<longrightarrow> read n')"
  have len: "length ns \<le> length ns'" "length ns' \<le> length ns''"
    using assms by (auto simp: read_kept_def)
  have a: "list_all2 ?P ns (take (length ns) ns')"
    using assms(1) by (simp add: read_kept_def)
  have "list_all2 ?P ns' (take (length ns') ns'')"
    using assms(2) by (simp add: read_kept_def)
  then have "list_all2 ?P (take (length ns) ns') (take (length ns) (take (length ns') ns''))"
    by (rule list_all2_takeI)
  then have b: "list_all2 ?P (take (length ns) ns') (take (length ns) ns'')"
    using len by (simp add: min_def)
  have "list_all2 ?P ns (take (length ns) ns'')"
    using a b by (rule list_all2_trans [rotated]) auto
  then show ?thesis using len by (simp add: read_kept_def)
qed

lemma appends_createNotification:
  "\<exists>new. notifications (snd (createNotification user msg ty s)) = notifications s @ new
      \<and> (\<forall>n \<in> set new. \<not> read n)"
  by (simp add: createNotification_notifications)

lemma appends_match_item:
  "\<exists>new. notifications (match_item newItemId newTitle user kws item s) = notifications s @ new
      \<and> (\<forall>n \<in> set new. \<not> read n)"
proof -
  obtain a where a: "\<And>u m t s. notifications (snd (createNotification u m t s)) = notifications s @ a u m t s"
    "\<And>u m t s. \<forall>n \<in> set (a u m t s). \<not> read n"
    using appends_createNotification by metis
  show ?thesis
    by (auto simp: match_item_def Let_def a)
qed

lemma appends_fold_match_item:
  "\<exists>new. notifications (fold (match_item newItemId newTitle user kws) items s) = notifications s @ new
      \<and> (\<forall>n \<in> set new. \<not> read n)"
proof (induction items arbitrary: s)
  case Nil
  then show ?case by simp
next
  case (Cons item items)
  obtain new1 where n1: "notifications (match_item newItemId newTitle user kws item s) = notifications s @ new1"
    "\<forall>n \<in> set new1. \<not> read n"
    using appends_match_item by blast
  obtain new2 where n2: "notifications (fold (match_item newItemId newTitle user kws) items
        (match_item newItemId newTitle user kws item s))
      = notifications (match_item newItemId newTitle user kws item s) @ new2"
    "\<forall>n \<in> set new2. \<not> read n"
    using Cons.IH by blast
  show ?case
    by (rule exI [of _ "new1 @ new2"]) (use n1 n2 in auto)
qed

lemma step_checkKeywordMatch:
  "step_shape (notifications s) (notifications (snd (checkKeywordMatch i t u s)))"
proof -
  obtain new where
    "notifications (fold (match_item i t u (keywords_of t)) (lost_found_items s) (snd (request s)))
       = notifications (snd (request s)) @ new" "\<forall>n \<in> set new. \<not> read n"
    using appends_fold_match_item by blast
  then have "\<exists>new. notifications (snd (checkKeywordMatch i t u s)) = notifications s @ new
      \<and> (\<forall>n \<in> set new. \<not> read n)"
    by (auto simp: checkKeywordMatch_def getDocs_request request_collections
        collection_lost_found_items_def console_error_def Let_def)
  then show ?thesis by (auto intro: step_shape_append)
qed

lemma step_createNotification:
  "step_shape (notifications s) (notifications (snd (createNotification u m t s)))"
  using appends_createNotification [of u m t s] by (auto intro: step_shape_append)

lemma step_markAllRead:
  "step_shape (notifications s) (notifications (snd (markAllRead u s)))"
  by (auto simp: markAllRead_notifications intro: step_shape_refl step_shape_map)

lemma step_markOneRead:
  "step_shape (notifications s) (notifications (snd (markOneRead i s)))"
  by (auto simp: markOneRead_def updateDoc_def request_def collection_notifications_def update_id_def
      split: list.splits bool.splits intro: step_shape_refl step_shape_map)

lemma step_updateLostFoundStatus:
  "step_shape (notifications s) (notifications (snd (updateLostFoundStatus i st u s)))"
proof -
  have "\<exists>new. notifications (snd (updateLostFoundStatus i st u s)) = notifications s @ new
      \<and> (\<forall>n \<in> set new. \<not> read n)"
    by (auto simp: updateLostFoundStatus_def updateDoc_def request_def collection_lost_found_items_def
        showToast_def console_error_def createNotification_def addDoc_def collection_notifications_def Let_def
        split: list.splits bool.splits)
  then show ?thesis by (auto intro: step_shape_append)
qed

lemma step_updateComplaintStatus:
  "step_shape (notifications s) (notifications (snd (updateComplaintStatus i st u s)))"
proof -
  have "\<exists>new. notifications (snd (updateComplaintStatus i st u s)) = notifications s @ new
      \<and> (\<forall>n \<in> set new. \<not> read n)"
    by (auto simp: updateComplaintStatus_def updateDoc_def request_def collection_complaints_def
        updateComplaintStatus_catch_def
        showToast_def console_error_def createNotification_def addDoc_def collection_notifications_def Let_def
        split: list.splits bool.splits)
  then show ?thesis by (auto intro: step_shape_append)
qed

lemma step_registerVolunteer:
  "notifications (snd (registerVolunteer u n f s)) = notifications s"
  by (auto simp: registerVolunteer_def getDocs_def addDoc_def request_def
      collection_volunteers_def Let_def registerVolunteer_catch_def showToast_def console_error_def
      split: list.splits bool.splits)

lemma step_run_op: "step_shape (notifications s) (notifications (run_op op s))"
  by (cases op)
    (simp_all add: step_createNotification step_markAllRead step_markOneRead step_checkKeywordMatch
      step_updateLostFoundStatus step_updateComplaintStatus step_registerVolunteer step_shape_refl)

lemma read_kept_fold: "read_kept (notifications s) (notifications (fold run_op ops s))"
proof (induction ops arbitrary: s)
  case Nil
  then show ?case by (simp add: read_kept_refl)
next
  case (Cons op ops)
  have "read_kept (notifications s) (notifications (run_op op s))"
    using step_shape_read_kept [OF step_run_op] by blast
  then show ?case
    using Cons.IH [of "run_op op s"] by (auto intro: read_kept_trans)
qed

lemma registerVolunteer_others:
  "lost_found_items (snd (registerVolunteer u n f s)) = lost_found_items s"
  "complaints (snd (registerVolunteer u n f s)) = complaints s"
  by (auto simp: registerVolunteer_def getDocs_def addDoc_def request_def
      collection_volunteers_def Let_def registerVolunteer_catch_def showToast_def console_error_def
      split: list.splits bool.splits)

section \<open>Properties\<close>

text \<open>
  C7. \<open>createNotification\<close> never passes a failure on to its caller: whatever the
  recipient, message and category, and whether the write to the store succeeds or
  fails, the call returns normally; a failed write is logged on the console.
\<close>

theorem createNotification_never_fails:
  "fst (createNotification user msg ty s) = Inr ()
   \<and> console (snd (createNotification user msg ty s))
       = console s @ (if fst (request s) then [''Create notification error:''] else [])"
  by (auto simp: createNotification_def addDoc_def request_def collection_notifications_def
      console_error_def Let_def split: list.splits bool.splits)

text \<open>
  C1. Every sequence that a listener hands to its callback is to be sorted by
  \<open>createdAt\<close>, newest first. The comparison function of the listeners reads only the
  seconds of \<open>createdAt\<close>. In \<open>same_second_world\<close> two notifications and two lost and
  found items of one user were written in the same second, half a second apart, and
  the snapshot lists the older one first: \<open>listenNotifications\<close> and
  \<open>listenUserLostFound\<close> hand them on in that order, the older before the newer.
\<close>

theorem listeners_same_second_order:
  "map id_doc (listenNotifications ''u1'' id (Some same_second_world)) = [1, 2]
   \<and> \<not> sorted_wrt not_older (listenNotifications ''u1'' id (Some same_second_world))
   \<and> map id_doc (listenUserLostFound ''u1'' id (Some same_second_world)) = [5, 6]
   \<and> \<not> sorted_wrt not_older (listenUserLostFound ''u1'' id (Some same_second_world))"
  by (simp add: listenNotifications_def listenUserLostFound_def same_second_world_def
      newest_first_def seconds_or_0_def not_older_def time_of_def)

text \<open>
  C2. A user submits "Lost Brown Wallet"; the only other record of the collection is
  titled "Found Brown Wallet Downtown" and belongs to someone else; the store answers.
  Then the matching step creates exactly two notifications: the first to the submitter,
  its message containing "Found Brown Wallet Downtown", the second to the owner of the
  other record, its message containing "Lost Brown Wallet".
\<close>

theorem keyword_match_two_notifications:
  assumes others: "filter (\<lambda>d. id_doc d \<noteq> newItemId) (lost_found_items s) = [other]"
    and t: "title other = ''Found Brown Wallet Downtown''"
    and owner: "userId other \<noteq> user"
    and ok: "healthy 3 s"
  shows "\<exists>n1 n2.
      notifications (snd (checkKeywordMatch newItemId ''Lost Brown Wallet'' user s))
        = notifications s @ [n1, n2]
    \<and> userId n1 = user \<and> includes_str (message n1) ''Found Brown Wallet Downtown''
    \<and> userId n2 = userId other \<and> includes_str (message n2) ''Lost Brown Wallet''
    \<and> type n1 = ''match'' \<and> type n2 = ''match'' \<and> \<not> read n1 \<and> \<not> read n2"
proof -
  define m1 where "m1 = magnifier @ '' Possible match found! '' @ dquote @ title other @ dquote
                            @ '' may match your report.''"
  define m2 where "m2 = magnifier @ '' Possible match for your item! Check '' @ dquote
                            @ ''Lost Brown Wallet'' @ dquote @ ''.''"
  define s1 where "s1 = s\<lparr>faults := tl (faults s)\<rparr>"
  define s2 where "s2 = snd (createNotification user m1 ''match'' s1)"
  define s3 where "s3 = snd (createNotification (userId other) m2 ''match'' s2)"
  have h1: "healthy (Suc (Suc (Suc 0))) s" using ok by (simp add: eval_nat_numeral)
  have h2: "healthy (Suc (Suc 0)) s1" unfolding s1_def by (rule healthy_tl [OF h1])
  have h3: "healthy (Suc 0) s2" unfolding s2_def by (rule createNotification_healthy_faults [OF h2])
  have "other \<in> set (filter (\<lambda>d. id_doc d \<noteq> newItemId) (lost_found_items s))"
    by (simp add: others)
  then have oid: "id_doc other \<noteq> newItemId" by simp
  have run: "snd (checkKeywordMatch newItemId ''Lost Brown Wallet'' user s) = s3"
    using others owner oid found_title_matches
    unfolding s3_def s2_def s1_def m1_def m2_def
    by (simp add: checkKeywordMatch_def keywords_lost_brown_wallet getDocs_def
        request_healthy [OF h1] collection_lost_found_items_def
        fold_match_item_others [of newItemId _ user _ "lost_found_items s"]
        match_item_def t Let_def)
  have n1: "notifications s1 = notifications s" by (simp add: s1_def)
  have n2: "notifications s2 = notifications s1 @
       [\<lparr>id_doc = new_id (notifications s1), userId = user, createdAt = Some (now s1),
         message = m1, type = ''match'', read = False\<rparr>]"
    unfolding s2_def by (rule createNotification_healthy_notifications [OF h2])
  have n3: "notifications s3 = notifications s2 @
       [\<lparr>id_doc = new_id (notifications s2), userId = userId other, createdAt = Some (now s2),
         message = m2, type = ''match'', read = False\<rparr>]"
    unfolding s3_def by (rule createNotification_healthy_notifications [OF h3])
  have i1: "includes_str m1 ''Found Brown Wallet Downtown''"
    unfolding m1_def t
    using includes_str_append [of "magnifier @ '' Possible match found! '' @ dquote"
        "''Found Brown Wallet Downtown''" "dquote @ '' may match your report.''"]
    by simp
  have i2: "includes_str m2 ''Lost Brown Wallet''"
    unfolding m2_def
    using includes_str_append [of "magnifier @ '' Possible match for your item! Check '' @ dquote"
        "''Lost Brown Wallet''" "dquote @ ''.''"]
    by simp
  show ?thesis
    unfolding run n3 n2 n1 using i1 i2 by simp
qed

theorem keyword_match_two_notifications_witness:
  "filter (\<lambda>d. id_doc d \<noteq> 2) (lost_found_items wallet_world) = [found_wallet]
   \<and> title found_wallet = ''Found Brown Wallet Downtown''
   \<and> userId found_wallet \<noteq> ''alice''
   \<and> healthy 3 wallet_world
   \<and> (\<exists>n1 n2.
        notifications (snd (checkKeywordMatch 2 ''Lost Brown Wallet'' ''alice'' wallet_world))
          = notifications wallet_world @ [n1, n2]
      \<and> userId n1 = ''alice'' \<and> includes_str (message n1) ''Found Brown Wallet Downtown''
      \<and> userId n2 = userId found_wallet \<and> includes_str (message n2) ''Lost Brown Wallet''
      \<and> type n1 = ''match'' \<and> type n2 = ''match'' \<and> \<not> read n1 \<and> \<not> read n2)"
proof -
  have a: "filter (\<lambda>d. id_doc d \<noteq> 2) (lost_found_items wallet_world) = [found_wallet]"
    by (simp add: wallet_world_def found_wallet_def)
  have b: "title found_wallet = ''Found Brown Wallet Downtown''"
    by (simp add: found_wallet_def)
  have c: "userId found_wallet \<noteq> ''alice''"
    by (simp add: found_wallet_def)
  have d: "healthy 3 wallet_world"
    by (simp add: healthy_def wallet_world_def)
  show ?thesis
    using a b c d keyword_match_two_notifications [OF a b c d] by blast
qed




text \<open>
  C4. \<open>markAllRead\<close> is idempotent: when a call for a recipient has succeeded, the
  recipient has no unread notification left, and a second call, whatever its own
  outcome, leaves every notification as the first call left it.
\<close>

theorem markAllRead_idempotent:
  assumes "fst (markAllRead user s) = Inr ()"
  shows "filter (\<lambda>d. userId d = user \<and> \<not> read d) (notifications (snd (markAllRead user s))) = []
    \<and> notifications (snd (markAllRead user (snd (markAllRead user s))))
        = notifications (snd (markAllRead user s))"
proof -
  have a: "filter (\<lambda>d. userId d = user \<and> \<not> read d) (notifications (snd (markAllRead user s))) = []"
    using assms by (auto simp: markAllRead_notifications filter_empty_conv)
  show ?thesis using a markAllRead_nothing_unread [OF a] by simp
qed

theorem markAllRead_idempotent_witness:
  "fst (markAllRead ''u1'' inbox_world) = Inr ()
   \<and> filter (\<lambda>d. userId d = ''u1'' \<and> \<not> read d)
        (notifications (snd (markAllRead ''u1'' inbox_world))) = []
   \<and> notifications (snd (markAllRead ''u1'' (snd (markAllRead ''u1'' inbox_world))))
        = notifications (snd (markAllRead ''u1'' inbox_world))
   \<and> map read (notifications (snd (markAllRead ''u1'' inbox_world))) = [True, True, False]"
proof -
  have a: "fst (markAllRead ''u1'' inbox_world) = Inr ()"
    by code_simp
  have b: "map read (notifications (snd (markAllRead ''u1'' inbox_world))) = [True, True, False]"
    by code_simp
  show ?thesis
    using a b markAllRead_idempotent [OF a] by simp
qed

text \<open>
  C5. \<open>registerVolunteer\<close> is called twice in a row for the same user and event, the
  user not being registered for the event before and the store answering the first
  call. The first call returns \<open>true\<close> and adds exactly one registration, of that user for
  that event; the second returns \<open>false\<close>, whatever the store does, and changes no
  collection.
\<close>

theorem register_twice:
  assumes fresh: "\<not> registered user (eventId_form form) s"
    and ok: "healthy 2 s"
    and same: "eventId_form form' = eventId_form form"
  shows "fst (registerVolunteer user uname form s) = Inr True
    \<and> (\<exists>v. volunteers (snd (registerVolunteer user uname form s)) = volunteers s @ [v]
           \<and> userId v = user \<and> eventId v = eventId_form form)
    \<and> fst (registerVolunteer user uname' form' (snd (registerVolunteer user uname form s))) = Inr False
    \<and> volunteers (snd (registerVolunteer user uname' form' (snd (registerVolunteer user uname form s))))
        = volunteers (snd (registerVolunteer user uname form s))
    \<and> notifications (snd (registerVolunteer user uname' form' (snd (registerVolunteer user uname form s))))
        = notifications (snd (registerVolunteer user uname form s))
    \<and> lost_found_items (snd (registerVolunteer user uname' form' (snd (registerVolunteer user uname form s))))
        = lost_found_items (snd (registerVolunteer user uname form s))
    \<and> complaints (snd (registerVolunteer user uname' form' (snd (registerVolunteer user uname form s))))
        = complaints (snd (registerVolunteer user uname form s))"
proof -
  let ?s1 = "snd (registerVolunteer user uname form s)"
  have first: "fst (registerVolunteer user uname form s) = Inr True"
    using fresh ok by (simp add: registerVolunteer_result)
  have vs: "volunteers ?s1 = volunteers s @
        [\<lparr>id_doc = new_id (volunteers s), userId = user, createdAt = Some (now s),
          userName = uname, status = ''Registered'',
          name = name_form form, email = email_form form, phone = phone_form form,
          eventId = eventId_form form, eventTitle = eventTitle_form form,
          availability = availability_form form, skills = skills_form form\<rparr>]"
    using first by (simp add: registerVolunteer_volunteers)
  have reg: "registered user (eventId_form form') ?s1"
    by (simp add: registered_def vs same)
  have second: "fst (registerVolunteer user uname' form' ?s1) = Inr False"
    using reg by (simp add: registerVolunteer_result)
  have keep: "volunteers (snd (registerVolunteer user uname' form' ?s1)) = volunteers ?s1"
    using second by (simp add: registerVolunteer_volunteers)
  show ?thesis
    using first vs second keep
    by (simp add: step_registerVolunteer registerVolunteer_others)
qed

theorem register_twice_witness:
  "\<not> registered ''u1'' (eventId_form cleanup_form) empty_world
   \<and> healthy 2 empty_world
   \<and> fst (registerVolunteer ''u1'' ''Una'' cleanup_form empty_world) = Inr True
   \<and> length (volunteers (snd (registerVolunteer ''u1'' ''Una'' cleanup_form empty_world))) = 1
   \<and> fst (registerVolunteer ''u1'' ''Una'' cleanup_form
            (snd (registerVolunteer ''u1'' ''Una'' cleanup_form empty_world))) = Inr False
   \<and> volunteers (snd (registerVolunteer ''u1'' ''Una'' cleanup_form
            (snd (registerVolunteer ''u1'' ''Una'' cleanup_form empty_world))))
       = volunteers (snd (registerVolunteer ''u1'' ''Una'' cleanup_form empty_world))"
proof -
  have a: "\<not> registered ''u1'' (eventId_form cleanup_form) empty_world"
    by (simp add: registered_def empty_world_def)
  have b: "healthy 2 empty_world"
    by (simp add: healthy_def empty_world_def)
  have c: "eventId_form cleanup_form = eventId_form cleanup_form"
    by simp
  have d: "volunteers empty_world = []"
    by (simp add: empty_world_def)
  show ?thesis
    using a b register_twice [OF a b c, of "''Una''" "''Una''"] by (auto simp: d)
qed

text \<open>
  C6. A complaint in status "Submitted" is set to "Resolved" at once, the caller passing
  the owner of the complaint as the table of the administrator does, and the store
  answering. The call succeeds, the complaint is "Resolved", and exactly one notification
  is created: to the owner, its message containing "Resolved".
\<close>

theorem complaint_submitted_to_resolved:
  assumes c: "c \<in> set (complaints s)"
    and st: "status c = ''Submitted''"
    and ok: "healthy 2 s"
  shows "fst (updateComplaintStatus (id_doc c) ''Resolved'' (userId c) s) = Inr ()
    \<and> complaints (snd (updateComplaintStatus (id_doc c) ''Resolved'' (userId c) s))
        = update_id (id_doc c) (\<lambda>d. d\<lparr>status := ''Resolved''\<rparr>) (complaints s)
    \<and> c\<lparr>status := ''Resolved''\<rparr>
        \<in> set (complaints (snd (updateComplaintStatus (id_doc c) ''Resolved'' (userId c) s)))
    \<and> (\<exists>n. notifications (snd (updateComplaintStatus (id_doc c) ''Resolved'' (userId c) s))
              = notifications s @ [n]
           \<and> userId n = userId c \<and> includes_str (message n) ''Resolved''
           \<and> type n = ''complaint'' \<and> \<not> read n)"
proof -
  define m where "m = ''Your complaint status was updated to '' @ dquote @ ''Resolved'' @ dquote @ ''.''"
  define s1 where "s1 = s\<lparr>faults := tl (faults s), complaints := update_id (id_doc c) (\<lambda>d. d\<lparr>status := ''Resolved''\<rparr>) (complaints s)\<rparr>"
  have h1: "healthy (Suc (Suc 0)) s" using ok by (simp add: eval_nat_numeral)
  have has: "has_id (id_doc c) (complaints s)" using c by (auto simp: has_id_def)
  have upd: "updateDoc collection_complaints (id_doc c) (\<lambda>d. d\<lparr>status := ''Resolved''\<rparr>) s = (Inr (), s1)"
    using has by (simp add: updateDoc_def request_healthy [OF h1] collection_complaints_def s1_def)
  have h2: "healthy (Suc 0) s1"
    using healthy_tl [OF h1] by (simp add: s1_def healthy_def)
  have cn: "createNotification (userId c) m ''complaint'' s1 =
     (Inr (), s1\<lparr>faults := tl (faults s1),
                notifications := notifications s1 @
                  [\<lparr>id_doc = new_id (notifications s1), userId = userId c, createdAt = Some (now s1),
                    message = m, type = ''complaint'', read = False\<rparr>]\<rparr>)"
    by (rule createNotification_healthy [OF h2])
  have run: "updateComplaintStatus (id_doc c) ''Resolved'' (userId c) s =
     (Inr (), showToast (''Status updated to '' @ dquote @ ''Resolved'' @ dquote) ''success''
        (s1\<lparr>faults := tl (faults s1),
                notifications := notifications s1 @
                  [\<lparr>id_doc = new_id (notifications s1), userId = userId c, createdAt = Some (now s1),
                    message = m, type = ''complaint'', read = False\<rparr>]\<rparr>))"
    unfolding updateComplaintStatus_def upd using cn unfolding m_def by simp
  have inc: "includes_str m ''Resolved''"
    unfolding m_def
    using includes_str_append [of "''Your complaint status was updated to '' @ dquote" "''Resolved''" "dquote @ ''.''"]
    by simp
  have mem: "c\<lparr>status := ''Resolved''\<rparr> \<in> set (update_id (id_doc c) (\<lambda>d. d\<lparr>status := ''Resolved''\<rparr>) (complaints s))"
    using c by (force simp: update_id_def)
  show ?thesis
    unfolding run using inc mem by (simp add: showToast_def s1_def)
qed

theorem complaint_submitted_to_resolved_witness:
  "pothole \<in> set (complaints complaint_world)
   \<and> status pothole = ''Submitted''
   \<and> healthy 2 complaint_world
   \<and> fst (updateComplaintStatus 7 ''Resolved'' ''carol'' complaint_world) = Inr ()
   \<and> map status (complaints (snd (updateComplaintStatus 7 ''Resolved'' ''carol'' complaint_world)))
       = [''Resolved'']
   \<and> (\<exists>n. notifications (snd (updateComplaintStatus 7 ''Resolved'' ''carol'' complaint_world)) = [n]
          \<and> userId n = ''carol'' \<and> includes_str (message n) ''Resolved'')"
proof -
  have a: "pothole \<in> set (complaints complaint_world)"
    by (simp add: complaint_world_def)
  have b: "status pothole = ''Submitted''"
    by (simp add: pothole_def)
  have c: "healthy 2 complaint_world"
    by (simp add: healthy_def complaint_world_def)
  have d: "id_doc pothole = 7" "userId pothole = ''carol''" "notifications complaint_world = []"
    "complaints complaint_world = [pothole]"
    by (simp_all add: pothole_def complaint_world_def)
  have e: "map status (update_id 7 (\<lambda>d. d\<lparr>status := ''Resolved''\<rparr>) [pothole]) = [''Resolved'']"
    by (simp add: update_id_def pothole_def)
  show ?thesis
    using a b c e complaint_submitted_to_resolved [OF a b c]
    unfolding d by auto
qed

text \<open>
  C8. The read flag goes one way. Whatever operations run, in whatever order and with
  whatever failures of the store, a notification that was read stays in the store and
  stays read; and the notifications that an operation creates are unread.
\<close>

theorem read_flag_one_way:
  "read_kept (notifications s) (notifications (fold run_op ops s))
   \<and> created_unread (notifications s) (notifications (run_op op s))"
  using read_kept_fold step_shape_read_kept [OF step_run_op] by blast

theorem read_flag_one_way_witness:
  "read_kept (notifications inbox_world)
     (notifications (fold run_op
        [MarkOneRead 3, CreateNotification ''u1'' ''hello'' ''info'', MarkAllRead ''u1''] inbox_world))
   \<and> created_unread (notifications inbox_world)
        (notifications (run_op (CreateNotification ''u1'' ''hello'' ''info'') inbox_world))
   \<and> map read (notifications (fold run_op
        [MarkOneRead 3, CreateNotification ''u1'' ''hello'' ''info'', MarkAllRead ''u1''] inbox_world))
       = [True, True, True, True]
   \<and> map read (notifications (run_op (CreateNotification ''u1'' ''hello'' ''info'') inbox_world))
       = [False, True, False, False]"
proof -
  have a: "map read (notifications (fold run_op
        [MarkOneRead 3, CreateNotification ''u1'' ''hello'' ''info'', MarkAllRead ''u1''] inbox_world))
       = [True, True, True, True]"
    by code_simp
  have b: "map read (notifications (run_op (CreateNotification ''u1'' ''hello'' ''info'') inbox_world))
       = [False, True, False, False]"
    by code_simp
  show ?thesis
    using a b
      read_flag_one_way [of inbox_world
        "[MarkOneRead 3, CreateNotification ''u1'' ''hello'' ''info'', MarkAllRead ''u1'']"
        "CreateNotification ''u1'' ''hello'' ''info''"]
    by simp
qed

text \<open>
  C9. In \<open>updateComplaintStatus\<close> and \<open>updateLostFoundStatus\<close> the owner is notified only
  after the status has been written: when the write of the status fails, the call still
  returns normally, no notification is created and the records are as before.
\<close>

theorem failed_status_write_no_notification:
  "(fst (updateDoc collection_complaints complaintId (\<lambda>d. d\<lparr>status := newStatus\<rparr>) s) \<noteq> Inr ()
      \<longrightarrow> fst (updateComplaintStatus complaintId newStatus ownerId s) = Inr ()
        \<and> notifications (snd (updateComplaintStatus complaintId newStatus ownerId s)) = notifications s
        \<and> complaints (snd (updateComplaintStatus complaintId newStatus ownerId s)) = complaints s)
   \<and> (fst (updateDoc collection_lost_found_items itemId (\<lambda>d. d\<lparr>status := newStatus\<rparr>) s) \<noteq> Inr ()
      \<longrightarrow> fst (updateLostFoundStatus itemId newStatus itemOwnerId s) = Inr ()
        \<and> notifications (snd (updateLostFoundStatus itemId newStatus itemOwnerId s)) = notifications s
        \<and> lost_found_items (snd (updateLostFoundStatus itemId newStatus itemOwnerId s)) = lost_found_items s)"
  by (auto simp: updateComplaintStatus_def updateLostFoundStatus_def updateDoc_def request_def
      collection_complaints_def collection_lost_found_items_def updateComplaintStatus_catch_def
      showToast_def console_error_def
      split: list.splits bool.splits if_splits)

theorem failed_status_write_no_notification_witness:
  "fst (updateDoc collection_complaints 7 (\<lambda>d. d\<lparr>status := ''Found''\<rparr>) offline_world) \<noteq> Inr ()
   \<and> fst (updateComplaintStatus 7 ''Found'' ''carol'' offline_world) = Inr ()
   \<and> notifications (snd (updateComplaintStatus 7 ''Found'' ''carol'' offline_world))
       = notifications offline_world
   \<and> fst (updateDoc collection_lost_found_items 1 (\<lambda>d. d\<lparr>status := ''Found''\<rparr>) offline_world) \<noteq> Inr ()
   \<and> fst (updateLostFoundStatus 1 ''Found'' ''bob'' offline_world) = Inr ()
   \<and> notifications (snd (updateLostFoundStatus 1 ''Found'' ''bob'' offline_world))
       = notifications offline_world"
proof -
  have a: "fst (updateDoc collection_complaints 7 (\<lambda>d. d\<lparr>status := ''Found''\<rparr>) offline_world) \<noteq> Inr ()"
    by (simp add: updateDoc_def request_def offline_world_def)
  have b: "fst (updateDoc collection_lost_found_items 1 (\<lambda>d. d\<lparr>status := ''Found''\<rparr>) offline_world) \<noteq> Inr ()"
    by (simp add: updateDoc_def request_def offline_world_def)
  show ?thesis
    using a b
      failed_status_write_no_notification [where complaintId = 7 and newStatus = "''Found''"
        and s = offline_world and ownerId = "''carol''" and itemId = 1 and itemOwnerId = "''bob''"]
    by blast
qed

text \<open>
  C10. \<open>registerVolunteer\<close> never throws. It returns \<open>true\<close> exactly when the user is not
  yet registered for the event and both requests, the read for duplicates and the write,
  succeed; in every other case, a duplicate as well as a failure of the store, it
  returns \<open>false\<close>.
\<close>

theorem registerVolunteer_never_throws:
  "fst (registerVolunteer user uname form s)
     = Inr (\<not> registered user (eventId_form form) s \<and> healthy 2 s)"
proof (cases "registered user (eventId_form form) s")
  case True
  then have "filter (\<lambda>d. userId d = user \<and> eventId d = eventId_form form) (volunteers s) \<noteq> []"
    by (auto simp: registered_def list_ex_iff filter_empty_conv)
  with True show ?thesis
    by (auto simp: registerVolunteer_def getDocs_request request_collections
        collection_volunteers_def)
next
  case False
  then have "filter (\<lambda>d. userId d = user \<and> eventId d = eventId_form form) (volunteers s) = []"
    by (auto simp: registered_def list_ex_iff filter_empty_conv)
  with False show ?thesis
    by (auto simp: registerVolunteer_def getDocs_def addDoc_def request_def
        collection_volunteers_def healthy_2_cases Let_def split: list.splits bool.splits)
qed


text \<open>A duplicate and an unreachable store give the same result.\<close>

theorem registerVolunteer_never_throws_witness:
  "registered ''u1'' (eventId_form cleanup_form)
      (snd (registerVolunteer ''u1'' ''Una'' cleanup_form empty_world))
   \<and> fst (registerVolunteer ''u1'' ''Una'' cleanup_form
            (snd (registerVolunteer ''u1'' ''Una'' cleanup_form empty_world))) = Inr False
   \<and> \<not> registered ''u1'' (eventId_form cleanup_form) offline_world
   \<and> \<not> healthy 2 offline_world
   \<and> fst (registerVolunteer ''u1'' ''Una'' cleanup_form offline_world) = Inr False"
proof -
  have a: "registered ''u1'' (eventId_form cleanup_form)
      (snd (registerVolunteer ''u1'' ''Una'' cleanup_form empty_world))"
    by code_simp
  have b: "\<not> registered ''u1'' (eventId_form cleanup_form) offline_world"
    by (simp add: registered_def offline_world_def)
  have c: "\<not> healthy 2 offline_world"
    by (simp add: healthy_def offline_world_def)
  show ?thesis
    using a b c
      registerVolunteer_never_throws [of "''u1''" "''Una''" cleanup_form
        "snd (registerVolunteer ''u1'' ''Una'' cleanup_form empty_world)"]
      registerVolunteer_never_throws [of "''u1''" "''Una''" cleanup_form offline_world]
    by simp
qed

end
